theory Spec2Isabelle
  imports Complex_Main "HOL-Library.Word"
begin

unbundle bit_operations_syntax

section \<open>Values of the platform\<close>

text \<open>
  The repository is TypeScript running in a browser. Its numbers are IEEE doubles and the
  samples of a \<open>Float32Array\<close> are IEEE singles. A finite number is modelled by the real number
  it denotes; the two infinities and NaN are kept as values of their own, since a
  \<open>Float32Array\<close> can hold them and \<open>Math.min\<close>, \<open>Math.max\<close>, \<open>*\<close> and the typed-array
  stores treat them specially. Rounding of double arithmetic is not modelled. In the codec
  no rounding occurs: a single times \<open>0x7FFF\<close> or \<open>0x8000\<close> has at most 39 significant
  bits, and a 16-bit integer divided by 32768 is a single.
\<close>

datatype number = Num real | PosInf | NegInf | NaN

text \<open>
  What the code can throw. \<open>InvalidCharacterError\<close> is \<open>atob\<close>'s,
  \<open>RangeError\<close> the typed-array constructor's, \<open>NotSupportedError\<close> is
  \<open>createBuffer\<close>'s, \<open>SyntaxError\<close> is \<open>JSON.parse\<close>'s,
  \<open>RemoteError\<close> stands for a rejected request, and \<open>Error msg\<close> is
  \<open>new Error(msg)\<close>.
\<close>

datatype error =
    InvalidCharacterError
  | RangeError
  | NotSupportedError
  | SyntaxError
  | RemoteError
  | Error string

fun Math_min :: "number \<Rightarrow> number \<Rightarrow> number" where
  "Math_min NaN y = NaN"
| "Math_min x NaN = NaN"
| "Math_min NegInf y = NegInf"
| "Math_min x NegInf = NegInf"
| "Math_min PosInf y = y"
| "Math_min x PosInf = x"
| "Math_min (Num a) (Num b) = Num (min a b)"

fun Math_max :: "number \<Rightarrow> number \<Rightarrow> number" where
  "Math_max NaN y = NaN"
| "Math_max x NaN = NaN"
| "Math_max PosInf y = PosInf"
| "Math_max x PosInf = PosInf"
| "Math_max NegInf y = y"
| "Math_max x NegInf = x"
| "Math_max (Num a) (Num b) = Num (max a b)"

text \<open>\<open>x < y\<close> on numbers: false as soon as one side is NaN.\<close>

fun js_less :: "number \<Rightarrow> number \<Rightarrow> bool" where
  "js_less NaN y = False"
| "js_less x NaN = False"
| "js_less PosInf y = False"
| "js_less x NegInf = False"
| "js_less NegInf y = True"
| "js_less x PosInf = True"
| "js_less (Num a) (Num b) = (a < b)"

text \<open>\<open>x * y\<close>: an infinity times zero is NaN, otherwise the signs multiply.\<close>

fun js_sign :: "number \<Rightarrow> real" where
  "js_sign (Num a) = sgn a"
| "js_sign PosInf = 1"
| "js_sign NegInf = - 1"
| "js_sign NaN = 0"

fun js_times :: "number \<Rightarrow> number \<Rightarrow> number" where
  "js_times NaN y = NaN"
| "js_times x NaN = NaN"
| "js_times (Num a) (Num b) = Num (a * b)"
| "js_times x y =
     (if js_sign x * js_sign y = 0 then NaN
      else if 0 < js_sign x * js_sign y then PosInf else NegInf)"

text \<open>\<open>x + y\<close>: opposite infinities add up to NaN.\<close>

fun js_plus :: "number \<Rightarrow> number \<Rightarrow> number" where
  "js_plus NaN y = NaN"
| "js_plus x NaN = NaN"
| "js_plus (Num a) (Num b) = Num (a + b)"
| "js_plus PosInf NegInf = NaN"
| "js_plus NegInf PosInf = NaN"
| "js_plus PosInf y = PosInf"
| "js_plus x PosInf = PosInf"
| "js_plus NegInf y = NegInf"
| "js_plus x NegInf = NegInf"

text \<open>
  \<open>x / n\<close> for an array length \<open>n\<close> (the only divisor the session uses): \<open>0 / 0\<close> is
  NaN, and a nonzero number over zero is the infinity of its sign.
\<close>

fun js_divide_length :: "number \<Rightarrow> nat \<Rightarrow> number" where
  "js_divide_length NaN n = NaN"
| "js_divide_length PosInf n = PosInf"
| "js_divide_length NegInf n = NegInf"
| "js_divide_length (Num a) n =
     (if n = 0 then (if a = 0 then NaN else if 0 < a then PosInf else NegInf)
      else Num (a / real n))"

fun Math_sqrt :: "number \<Rightarrow> number" where
  "Math_sqrt NaN = NaN"
| "Math_sqrt PosInf = PosInf"
| "Math_sqrt NegInf = NaN"
| "Math_sqrt (Num a) = (if a < 0 then NaN else Num (sqrt a))"

text \<open>
  Storing a number into an \<open>Int16Array\<close>: NaN and the infinities become 0, a finite number
  is truncated towards zero and then reduced modulo \<open>2 ^ 16\<close>.
\<close>

definition js_trunc :: "real \<Rightarrow> int" where
  "js_trunc r = (if r < 0 then \<lceil>r\<rceil> else \<lfloor>r\<rfloor>)"

fun ToInt16 :: "number \<Rightarrow> 16 word" where
  "ToInt16 (Num r) = word_of_int (js_trunc r)"
| "ToInt16 x = 0"

section \<open>Base64: \<open>btoa\<close>, \<open>atob\<close> and the two wrappers of audioUtils\<close>

text \<open>
  A text is a \<open>string\<close>: a list of 8-bit characters. A binary string is a text whose
  characters are read as bytes. JavaScript's \<open>btoa\<close> throws on a code unit above 255, and
  \<open>atob\<close> rejects one; such code units are not values of \<open>char\<close>.
\<close>

definition base64_alphabet :: string where
  "base64_alphabet = ''ABCDEFGHIJKLMNOPQRSTUVWXYZabcdefghijklmnopqrstuvwxyz0123456789+/''"

definition sextet_char :: "nat \<Rightarrow> char" where
  "sextet_char n = base64_alphabet ! n"

definition char_sextet :: "char \<Rightarrow> nat option" where
  "char_sextet c = map_of (zip base64_alphabet [0..<64]) c"

text \<open>\<open>btoa\<close>: three octets become four characters, the last group is padded with \<open>=\<close>.\<close>

fun btoa_octets :: "nat list \<Rightarrow> string" where
  "btoa_octets (a # b # c # rest) =
     sextet_char (a div 4) # sextet_char ((a mod 4) * 16 + b div 16) #
     sextet_char ((b mod 16) * 4 + c div 64) # sextet_char (c mod 64) # btoa_octets rest"
| "btoa_octets [a, b] =
     [sextet_char (a div 4), sextet_char ((a mod 4) * 16 + b div 16),
      sextet_char ((b mod 16) * 4), CHR ''='']"
| "btoa_octets [a] =
     [sextet_char (a div 4), sextet_char ((a mod 4) * 16), CHR ''='', CHR ''='']"
| "btoa_octets [] = []"

definition btoa :: "string \<Rightarrow> string" where
  "btoa binary = btoa_octets (map of_char binary)"

text \<open>
  \<open>atob\<close> is the forgiving base64 decoder of the HTML standard: ASCII whitespace is
  removed; when the length is then a multiple of 4, one or two trailing \<open>=\<close> are removed;
  a length of 1 modulo 4 or a character outside the alphabet fails; four sextets give three
  octets, and the 2 or 4 spare bits of a last group of three or two sextets are dropped.
\<close>

definition ascii_whitespace :: "char \<Rightarrow> bool" where
  "ascii_whitespace c =
     (c = CHR 0x09 \<or> c = CHR 0x0A \<or> c = CHR 0x0C \<or> c = CHR 0x0D \<or> c = CHR 0x20)"

fun remove_padding :: "string \<Rightarrow> string" where
  "remove_padding d =
     (case rev d of
        c1 # c2 # r \<Rightarrow>
          if c1 = CHR ''='' \<and> c2 = CHR ''='' then rev r
          else if c1 = CHR ''='' then rev (c2 # r) else d
      | [c1] \<Rightarrow> if c1 = CHR ''='' then [] else d
      | [] \<Rightarrow> d)"

fun atob_sextets :: "nat list \<Rightarrow> nat list" where
  "atob_sextets (a # b # c # d # rest) =
     (a * 4 + b div 16) # ((b mod 16) * 16 + c div 4) # ((c mod 4) * 64 + d) #
     atob_sextets rest"
| "atob_sextets [a, b, c] = [a * 4 + b div 16, (b mod 16) * 16 + c div 4]"
| "atob_sextets [a, b] = [a * 4 + b div 16]"
| "atob_sextets [a] = []"
| "atob_sextets [] = []"

definition atob :: "string \<Rightarrow> error + string" where
  "atob text =
     (let d = filter (\<lambda>c. \<not> ascii_whitespace c) text;
          d = (if length d mod 4 = 0 then remove_padding d else d)
      in if length d mod 4 = 1 then Inl InvalidCharacterError
         else case those (map char_sextet d) of
                None \<Rightarrow> Inl InvalidCharacterError
              | Some sextets \<Rightarrow> Inr (map char_of (atob_sextets sextets)))"

text \<open>
  \<open>decodeBase64\<close> copies the character codes of \<open>atob\<close>'s result into a fresh
  \<open>Uint8Array\<close> (whose buffer holds these bytes and no others); \<open>encodeBase64\<close> appends \<open>String.fromCharCode\<close> of each byte and
  calls \<open>btoa\<close>. Both loops run over every index once, so each is a \<open>map\<close>.
\<close>

definition decodeBase64 :: "string \<Rightarrow> error + 8 word list" where
  "decodeBase64 base64 =
     (case atob base64 of
        Inl e \<Rightarrow> Inl e
      | Inr binaryString \<Rightarrow> Inr (map (\<lambda>c. word_of_nat (of_char c)) binaryString))"

definition encodeBase64 :: "8 word list \<Rightarrow> string" where
  "encodeBase64 bytes = btoa (map (\<lambda>b. char_of (unat b)) bytes)"

section \<open>Typed arrays\<close>

text \<open>
  A typed array is a list of its elements. Reading an index out of range gives
  \<open>undefined\<close> (\<open>None\<close>), and a store out of range is ignored. \<open>new Int16Array(buffer)\<close>
  throws a \<open>RangeError\<close> when the byte length of the buffer is odd; it and
  \<open>new Uint8Array(int16.buffer)\<close> read the shared buffer in the byte order of the
  platform, which is little-endian on every platform the application runs on.
\<close>

definition element :: "'a list \<Rightarrow> nat \<Rightarrow> 'a option" where
  "element xs i = (if i < length xs then Some (xs ! i) else None)"

definition store :: "'a list \<Rightarrow> nat \<Rightarrow> 'a \<Rightarrow> 'a list" where
  "store xs i v = (if i < length xs then xs[i := v] else xs)"

fun Int16_elements :: "8 word list \<Rightarrow> 16 word list" where
  "Int16_elements (lo # hi # rest) = word_cat hi lo # Int16_elements rest"
| "Int16_elements rest = []"

definition new_Int16Array :: "8 word list \<Rightarrow> error + 16 word list" where
  "new_Int16Array bytes =
     (if length bytes mod 2 \<noteq> 0 then Inl RangeError else Inr (Int16_elements bytes))"

definition Int16_bytes :: "16 word \<Rightarrow> 8 word list" where
  "Int16_bytes w = [ucast w, ucast (drop_bit 8 w)]"

definition new_Uint8Array :: "16 word list \<Rightarrow> 8 word list" where
  "new_Uint8Array int16 = concat (map Int16_bytes int16)"

section \<open>The PCM codec of audioUtils\<close>

text \<open>
  \<open>Blob\<close> is the SDK's type of an inline payload; both of its fields are optional there.
\<close>

record Blob =
  data :: "string option"
  mimeType :: "string option"

text \<open>
  \<open>createPcmBlob\<close>: the body of the loop is \<open>pcm_sample\<close>, with \<open>0x8000 = 32768\<close> and
  \<open>0x7FFF = 32767\<close>; the store into the \<open>Int16Array\<close> is \<open>ToInt16\<close>.
\<close>

definition pcm_sample :: "number \<Rightarrow> 16 word" where
  "pcm_sample x =
     (let s = Math_max (Num (- 1)) (Math_min (Num 1) x)
      in ToInt16 (if js_less s (Num 0) then js_times s (Num 32768) else js_times s (Num 32767)))"

definition createPcmBlob :: "number list \<Rightarrow> Blob" where
  "createPcmBlob input =
     \<lparr> data = Some (encodeBase64 (new_Uint8Array (map pcm_sample input))),
       mimeType = Some ''audio/pcm;rate=16000'' \<rparr>"

text \<open>
  An \<open>AudioContext\<close>, as far as \<open>createBuffer\<close> depends on it: the limits of the
  implementation (the Web Audio standard asks for at least 32 channels and the rates from
  8000 to 96000). \<open>createBuffer\<close> converts the length to an unsigned long (the fraction is
  dropped, then modulo \<open>2 ^ 32\<close>) and throws \<open>NotSupportedError\<close> for no channels or too
  many, for a length of zero and for a rate outside the limits; the new buffer is silent.
\<close>

record AudioContext =
  maxChannelCount :: nat
  minSampleRate :: nat
  maxSampleRate :: nat

record AudioBuffer =
  sampleRate :: nat
  frameLength :: nat
  channelData :: "number list list"

definition duration :: "AudioBuffer \<Rightarrow> real" where
  "duration audioBuffer = real (frameLength audioBuffer) / real (sampleRate audioBuffer)"

definition createBuffer :: "AudioContext \<Rightarrow> nat \<Rightarrow> real \<Rightarrow> nat \<Rightarrow> error + AudioBuffer" where
  "createBuffer ctx numberOfChannels len rate =
     (let n = nat \<lfloor>len\<rfloor> mod 2 ^ 32
      in if numberOfChannels = 0 \<or> maxChannelCount ctx < numberOfChannels \<or> n = 0
            \<or> rate < minSampleRate ctx \<or> maxSampleRate ctx < rate
         then Inl NotSupportedError
         else Inr \<lparr> sampleRate = rate, frameLength = n,
                    channelData = replicate numberOfChannels (replicate n (Num 0)) \<rparr>)"

text \<open>
  \<open>decodeAudioData\<close>. \<open>frameCount\<close> is a quotient of numbers and need not be whole; the
  inner loop runs over the indices \<open>i < frameCount\<close>, which are those below its ceiling.
  \<open>dataInt16[j] / 32768.0\<close> is NaN when \<open>j\<close> is out of range. With no channels the
  quotient is not a finite number in JavaScript; \<open>createBuffer\<close> throws then, whatever
  the length.
\<close>

definition int16_sample :: "16 word option \<Rightarrow> number" where
  "int16_sample v = (case v of None \<Rightarrow> NaN | Some w \<Rightarrow> Num (real_of_int (sint w) / 32768))"

definition fill_channel :: "16 word list \<Rightarrow> nat \<Rightarrow> real \<Rightarrow> nat \<Rightarrow> number list \<Rightarrow> number list" where
  "fill_channel dataInt16 numChannels frameCount channel samples =
     fold (\<lambda>i cd. store cd i (int16_sample (element dataInt16 (i * numChannels + channel))))
       [0..<nat \<lceil>frameCount\<rceil>] samples"

text \<open>
  A \<open>Uint8Array\<close> is a view of \<open>byteLength\<close> bytes, from \<open>byteOffset\<close> on, of an
  \<open>ArrayBuffer\<close>. \<open>decodeAudioData\<close> reads \<open>data.buffer\<close>, the whole buffer under
  its argument, and neither \<open>byteOffset\<close> nor \<open>byteLength\<close>. \<open>owning bytes\<close> is an
  array that is all of its buffer, as \<open>new Uint8Array(len)\<close> in \<open>decodeBase64\<close> is.
\<close>

record Uint8Array =
  buffer :: "8 word list"
  byteOffset :: nat
  byteLength :: nat

definition owning :: "8 word list \<Rightarrow> Uint8Array" where
  "owning bytes = \<lparr> buffer = bytes, byteOffset = 0, byteLength = length bytes \<rparr>"

definition decodeAudioData :: "Uint8Array \<Rightarrow> AudioContext \<Rightarrow> nat \<Rightarrow> nat \<Rightarrow> error + AudioBuffer" where
  "decodeAudioData array ctx rate numChannels =
     (case new_Int16Array (buffer array) of
        Inl e \<Rightarrow> Inl e
      | Inr dataInt16 \<Rightarrow>
          let frameCount = real (length dataInt16) / real numChannels
          in case createBuffer ctx numChannels frameCount rate of
               Inl e \<Rightarrow> Inl e
             | Inr audioBuffer \<Rightarrow>
                 Inr (fold
                   (\<lambda>channel b. b\<lparr>channelData := list_update (channelData b) channel
                      (fill_channel dataInt16 numChannels frameCount channel
                         (channelData b ! channel))\<rparr>)
                   [0..<numChannels] audioBuffer))"

text \<open>
  The channels that \<open>decodeAudioData\<close> computes from the samples \<open>dataInt16\<close>: frame
  \<open>i\<close> of channel \<open>c\<close> is sample \<open>i * numChannels + c\<close> divided by 32768.
\<close>

definition decoded_channels :: "16 word list \<Rightarrow> nat \<Rightarrow> nat \<Rightarrow> number list list" where
  "decoded_channels dataInt16 numChannels n =
     map (\<lambda>channel. map (\<lambda>i. Num (real_of_int (sint (dataInt16 ! (i * numChannels + channel))) / 32768))
       [0..<n]) [0..<numChannels]"

section \<open>The live interview session of geminiService\<close>

text \<open>
  An inbound message of the voice stream, with the optional fields that
  \<open>handleServerMessage\<close> reads through \<open>?.\<close>.
\<close>

record Part =
  inlineData :: "Blob option"

record Content =
  parts :: "Part list option"

record LiveServerContent =
  interrupted :: "bool option"
  modelTurn :: "Content option"

record LiveServerMessage =
  serverContent :: "LiveServerContent option"

text \<open>\<open>message.serverContent?.interrupted\<close>, as the condition of an \<open>if\<close>.\<close>

definition message_interrupted :: "LiveServerMessage \<Rightarrow> bool" where
  "message_interrupted message =
     (case serverContent message of
        None \<Rightarrow> False
      | Some content \<Rightarrow> (case interrupted content of None \<Rightarrow> False | Some flag \<Rightarrow> flag))"

text \<open>\<open>message.serverContent?.modelTurn?.parts?.[0]?.inlineData?.data\<close>.\<close>

definition message_audio :: "LiveServerMessage \<Rightarrow> string option" where
  "message_audio message =
     (case serverContent message of
        None \<Rightarrow> None
      | Some content \<Rightarrow>
          (case modelTurn content of
             None \<Rightarrow> None
           | Some turn \<Rightarrow>
               (case parts turn of
                  None \<Rightarrow> None
                | Some [] \<Rightarrow> None
                | Some (part # others) \<Rightarrow>
                    (case inlineData part of None \<Rightarrow> None | Some blob \<Rightarrow> data blob))))"

text \<open>
  The fields of an \<open>InterviewSession\<close>. A source node is known by the number of nodes the
  session created before it (\<open>created\<close>), which gives every node an identity of its own;
  the set \<open>sources\<close> is kept in insertion order, the order in which \<open>forEach\<close> visits a
  \<open>Set\<close>. For \<open>cleanup\<close> and the three callbacks the state records whether the field
  is set (not null).
\<close>

record InterviewSession =
  active :: bool
  inputAudioContext :: "AudioContext option"
  outputAudioContext :: "AudioContext option"
  nextStartTime :: real
  sources :: "nat list"
  cleanup :: bool
  onVolumeChange :: bool
  onDisconnect :: bool
  onError :: bool
  created :: nat

text \<open>
  What a method does to the world outside the session, in the order of the calls:
  a call of one of the three callbacks, \<open>sendRealtimeInput\<close> queued on the session
  promise, \<open>source.start(when)\<close> and \<open>source.stop()\<close> on a node, a call of the stored
  \<open>cleanup\<close> closure, and \<open>console.error\<close>.
\<close>

datatype event =
    VolumeChange number
  | Disconnect
  | ErrorReported string
  | SendRealtimeInput Blob
  | SourceStart nat real AudioBuffer
  | SourceStop nat
  | Cleanup
  | ConsoleError

text \<open>The session that the constructor returns.\<close>

definition new_InterviewSession :: InterviewSession where
  "new_InterviewSession =
     \<lparr> active = False, inputAudioContext = None, outputAudioContext = None,
       nextStartTime = 0, sources = [], cleanup = False,
       onVolumeChange = False, onDisconnect = False, onError = False, created = 0 \<rparr>"

text \<open>
  \<open>stop\<close>. The \<open>cleanup\<close> closure is asynchronous: it closes the two contexts, the
  microphone tracks and the connection later, and it does not assign any field of the
  session.
\<close>

definition stop :: "InterviewSession \<Rightarrow> InterviewSession \<times> event list" where
  "stop s =
     (s\<lparr>active := False\<rparr>,
      (if cleanup s then [Cleanup] else []) @ (if onDisconnect s then [Disconnect] else []))"

text \<open>
  \<open>start\<close>, given the two contexts that the constructor calls return and whether
  \<open>getUserMedia\<close> resolves. \<open>ai.live.connect\<close> is not awaited, so of the steps in the
  \<open>try\<close> block it is the microphone that can reach the \<open>catch\<close>; the contexts are
  assigned before the microphone is asked for, and \<open>cleanup\<close> only after it is granted.
\<close>

definition start :: "AudioContext \<Rightarrow> AudioContext \<Rightarrow> bool \<Rightarrow> InterviewSession \<Rightarrow> InterviewSession \<times> event list" where
  "start inputCtx outputCtx microphone s =
     (if active s then (s, [])
      else
        let s1 = s\<lparr>active := True, inputAudioContext := Some inputCtx,
                    outputAudioContext := Some outputCtx\<rparr>
        in if microphone then (s1\<lparr>cleanup := True\<rparr>, [])
           else
             let (s2, events) = stop s1
             in (s2, ConsoleError #
                     (if onError s1 then [ErrorReported ''Failed to access microphone or connect to AI.'']
                      else []) @ events))"

text \<open>
  The \<open>onaudioprocess\<close> callback that \<open>startAudioStreaming\<close> installs, called with the
  samples of channel 0 of the input buffer.
\<close>

definition onaudioprocess :: "number list \<Rightarrow> InterviewSession \<Rightarrow> InterviewSession \<times> event list" where
  "onaudioprocess inputData s =
     (if \<not> active s then (s, [])
      else
        let sum = fold (\<lambda>x sum. js_plus sum (js_times x x)) inputData (Num 0);
            rms = Math_sqrt (js_divide_length sum (length inputData))
        in (s, (if onVolumeChange s then [VolumeChange rms] else []) @
               [SendRealtimeInput (createPcmBlob inputData)]))"

text \<open>
  \<open>handleServerMessage\<close>, given the reading of \<open>outputAudioContext.currentTime\<close> while
  the message is handled. The handler is asynchronous. It runs without a break up to
  \<open>await decodeAudioData(...)\<close>: by then it has assigned \<open>nextStartTime\<close>, and
  \<open>decodeBase64\<close> and the body of \<open>decodeAudioData\<close> have run. There it is suspended,
  and other events can be handled before it goes on. The third component of the result
  is \<open>None\<close> when the handler has returned, and the outcome of the awaited promise when
  it is suspended. A string is falsy when it is empty; an exception of \<open>decodeBase64\<close>
  is thrown before the \<open>await\<close> and ends in \<open>console.error\<close> at once.
\<close>

definition handleServerMessage :: "real \<Rightarrow> LiveServerMessage \<Rightarrow> InterviewSession \<Rightarrow> InterviewSession \<times> event list \<times> (error + AudioBuffer) option" where
  "handleServerMessage currentTime message s =
     (case outputAudioContext s of
        None \<Rightarrow> (s, [], None)
      | Some ctx \<Rightarrow>
          if message_interrupted message
          then (s\<lparr>sources := [], nextStartTime := 0\<rparr>, map SourceStop (sources s), None)
          else
            (case message_audio message of
               None \<Rightarrow> (s, [], None)
             | Some base64Audio \<Rightarrow>
                 if base64Audio = [] then (s, [], None)
                 else
                   let s1 = s\<lparr>nextStartTime := max (nextStartTime s) currentTime\<rparr>
                   in (case decodeBase64 base64Audio of
                         Inl e \<Rightarrow> (s1, [ConsoleError], None)
                       | Inr bytes \<Rightarrow>
                           (s1, [], Some (decodeAudioData (owning bytes) ctx 24000 1)))))"

text \<open>
  The rest of the handler, run when it is resumed with the outcome of the promise, on
  the session as it is then. A rejection ends in \<open>console.error\<close>. Otherwise a new source
  node is created and started at the value that \<open>nextStartTime\<close> has now, which is then
  advanced by the duration, and the node joins the set. \<open>source.start(when)\<close> throws a
  \<open>RangeError\<close> for a negative \<open>when\<close>, which ends in \<open>console.error\<close> too.
\<close>

definition afterDecode :: "error + AudioBuffer \<Rightarrow> InterviewSession \<Rightarrow> InterviewSession \<times> event list" where
  "afterDecode decoded s =
     (case decoded of
        Inl e \<Rightarrow> (s, [ConsoleError])
      | Inr audioBuffer \<Rightarrow>
          if nextStartTime s < 0 then (s, [ConsoleError])
          else
            (s\<lparr>nextStartTime := nextStartTime s + duration audioBuffer,
               sources := sources s @ [created s],
               created := Suc (created s)\<rparr>,
             [SourceStart (created s) (nextStartTime s) audioBuffer]))"


section \<open>The CV analysis of geminiService\<close>

text \<open>
  The input is a text or a document with its MIME type. \<open>requestContents\<close> is what
  \<open>analyzeCV\<close> sends: the text cut to 20000 code units, or the document; the fixed
  wording of the instructions around it is left out.
\<close>

datatype CVInput = CVText string | CVDocument string string

datatype contents = TextPrompt string | DocumentPrompt string string

definition requestContents :: "CVInput \<Rightarrow> contents" where
  "requestContents input =
     (case input of
        CVText cv \<Rightarrow> TextPrompt (take 20000 cv)
      | CVDocument mime document \<Rightarrow> DocumentPrompt mime document)"

text \<open>
  A JSON value; an object is the list of its members. \<open>JSON.parse\<close> is a function of the
  platform, so a response text is represented by what \<open>JSON.parse\<close> makes of it: a
  \<open>SyntaxError\<close> (\<open>NotJson\<close>) or a value. In a response, \<open>None\<close> stands for a text
  that is undefined or empty; \<open>response.text || '{}'\<close> replaces both by \<open>'{}'\<close>, the
  text of the empty object.
\<close>

datatype json =
    JNull
  | JBool bool
  | JNumber real
  | JString string
  | JArray "json list"
  | JObject "(string \<times> json) list"

datatype json_text = NotJson | Json json

definition JSON_parse :: "json_text \<Rightarrow> error + json" where
  "JSON_parse t = (case t of NotJson \<Rightarrow> Inl SyntaxError | Json v \<Rightarrow> Inr v)"

record GenerateContentResponse =
  response_text :: "json_text option"

text \<open>
  \<open>analyzeCV\<close>, given the remote model as a function from the request to the outcome of
  the awaited call (\<open>Inl\<close> when it rejects). Every exception of the \<open>try\<close> block is
  replaced by \<open>new Error("Failed to analyze CV content.")\<close>; \<open>result as CVAnalysis\<close>
  is a cast of TypeScript and checks nothing when the code runs.
\<close>

definition analyzeCV :: "(contents \<Rightarrow> error + GenerateContentResponse) \<Rightarrow> CVInput \<Rightarrow> error + json" where
  "analyzeCV generateContent input =
     (case generateContent (requestContents input) of
        Inl e \<Rightarrow> Inl (Error ''Failed to analyze CV content.'')
      | Inr response \<Rightarrow>
          (case JSON_parse (case response_text response of
                              None \<Rightarrow> Json (JObject [])
                            | Some t \<Rightarrow> t) of
             Inl e \<Rightarrow> Inl (Error ''Failed to analyze CV content.'')
           | Inr result \<Rightarrow> Inr result))"

text \<open>
  A profile in the words of the specification: an object with the string members
  \<open>candidateName\<close> and \<open>summary\<close> and the members \<open>topics\<close> and \<open>technicalSkills\<close>,
  each an array of strings. \<open>answer t\<close> is a remote model that answers every request
  with the text \<open>t\<close>.
\<close>

fun is_string :: "json option \<Rightarrow> bool" where
  "is_string (Some (JString s)) = True"
| "is_string v = False"

fun is_string_array :: "json option \<Rightarrow> bool" where
  "is_string_array (Some (JArray vs)) = list_all (\<lambda>v. is_string (Some v)) vs"
| "is_string_array v = False"

fun profile_spec :: "json \<Rightarrow> bool" where
  "profile_spec (JObject members) =
     (is_string (map_of members ''candidateName'') \<and> is_string (map_of members ''summary'')
      \<and> is_string_array (map_of members ''topics'')
      \<and> is_string_array (map_of members ''technicalSkills''))"
| "profile_spec v = False"

definition answer :: "json_text option \<Rightarrow> contents \<Rightarrow> error + GenerateContentResponse" where
  "answer t request = Inr \<lparr> response_text = t \<rparr>"

section \<open>Runs of the message handler\<close>

text \<open>
  The event loop, as far as the message handler takes part in it. A step is the arrival
  of a message, with the reading of the output clock at its time, or the resumption of
  the handler that has been suspended the longest. The state is the session and the
  outcomes that the suspended handlers wait for, oldest first. \<open>handleAll\<close> runs a
  sequence of steps and collects the events. \<open>scheduled\<close> lists the start time and the
  duration of every segment that a list of events starts. \<open>in_time\<close> says that every
  message of the sequence arrives while the clock has not passed \<open>nextStartTime\<close>, and
  \<open>no_interruption\<close> that no message of it has the interrupted flag.
  \<open>back_to_back t\<close> says that the first segment of a schedule starts at \<open>t\<close> and every
  later one at the end of the one before it; \<open>end_of\<close> is the end of the last segment.
\<close>

datatype step = Arrive real LiveServerMessage | Continue

fun handle :: "step \<Rightarrow> InterviewSession \<times> (error + AudioBuffer) list \<Rightarrow> (InterviewSession \<times> (error + AudioBuffer) list) \<times> event list" where
  "handle (Arrive currentTime message) (s, waiting) =
     (case handleServerMessage currentTime message s of
        (s1, events, None) \<Rightarrow> ((s1, waiting), events)
      | (s1, events, Some decoded) \<Rightarrow> ((s1, waiting @ [decoded]), events))"
| "handle Continue (s, []) = ((s, []), [])"
| "handle Continue (s, decoded # waiting) =
     (case afterDecode decoded s of (s1, events) \<Rightarrow> ((s1, waiting), events))"

fun handleAll :: "step list \<Rightarrow> InterviewSession \<times> (error + AudioBuffer) list \<Rightarrow> (InterviewSession \<times> (error + AudioBuffer) list) \<times> event list" where
  "handleAll [] loop = (loop, [])"
| "handleAll (step # steps) loop =
     (case handle step loop of
        (loop1, events1) \<Rightarrow>
          (case handleAll steps loop1 of (loop2, events2) \<Rightarrow> (loop2, events1 @ events2)))"



fun scheduled :: "event list \<Rightarrow> (real \<times> real) list" where
  "scheduled [] = []"
| "scheduled (SourceStart source when audioBuffer # events) =
     (when, duration audioBuffer) # scheduled events"
| "scheduled (e # events) = scheduled events"



section \<open>Example inputs\<close>

text \<open>
  A context with the limits the standard asks for; a message that carries the audio
  \<open>a\<close>, and one that carries it together with the interrupted flag; a session with its
  three callbacks set, after \<open>start\<close> with the microphone granted; and the buffer that
  the six zero bytes of the text \<open>AAAAAAAA\<close> decode to.
\<close>

definition example_context :: AudioContext where
  "example_context = \<lparr> maxChannelCount = 32, minSampleRate = 8000, maxSampleRate = 96000 \<rparr>"

definition audio_message :: "string \<Rightarrow> LiveServerMessage" where
  "audio_message a =
     \<lparr> serverContent = Some \<lparr> interrupted = None, modelTurn = Some \<lparr> parts = Some
         [\<lparr> inlineData = Some \<lparr> data = Some a, mimeType = Some ''audio/pcm;rate=24000'' \<rparr> \<rparr>] \<rparr> \<rparr> \<rparr>"

definition interrupted_message :: "string \<Rightarrow> LiveServerMessage" where
  "interrupted_message a =
     \<lparr> serverContent = Some \<lparr> interrupted = Some True, modelTurn = Some \<lparr> parts = Some
         [\<lparr> inlineData = Some \<lparr> data = Some a, mimeType = Some ''audio/pcm;rate=24000'' \<rparr> \<rparr>] \<rparr> \<rparr> \<rparr>"

definition example_session :: InterviewSession where
  "example_session =
     fst (start example_context example_context True
       (new_InterviewSession\<lparr>onVolumeChange := True, onDisconnect := True, onError := True\<rparr>))"

definition silence :: AudioBuffer where
  "silence = \<lparr> sampleRate = 24000, frameLength = 3, channelData = [[Num 0, Num 0, Num 0]] \<rparr>"

section \<open>The encoder, in the words of the specification\<close>

text \<open>
  These three definitions follow the specification, not the code: a sample is clamped to
  \<open>[-1, 1]\<close>; a negative value is scaled by 32768 and any other by 32767, and the
  product is truncated to an integer; the integer is written as two bytes, the low byte
  first. The theorems on \<open>createPcmBlob\<close> compare the code with them.
\<close>

definition clamp_spec :: "real \<Rightarrow> real" where
  "clamp_spec x = (if x < - 1 then - 1 else if 1 < x then 1 else x)"

definition quantize_spec :: "real \<Rightarrow> int" where
  "quantize_spec x =
     (let c = clamp_spec x in js_trunc (if c < 0 then c * 32768 else c * 32767))"

definition int16_le_spec :: "int \<Rightarrow> 8 word list" where
  "int16_le_spec k = [word_of_int k, word_of_int (k div 256)]"

section \<open>Round trip of the text encoding\<close>

lemma base64_alphabet_length: "length base64_alphabet = 64"
  by (simp add: base64_alphabet_def)

lemma distinct_alphabet: "distinct base64_alphabet"
  by (simp add: base64_alphabet_def)

lemma char_sextet_sextet_char: "n < 64 \<Longrightarrow> char_sextet (sextet_char n) = Some n"
  unfolding char_sextet_def sextet_char_def
  using map_of_zip_nth[of base64_alphabet "[0..<64]" n] distinct_alphabet
  by (simp add: base64_alphabet_length)

lemma sextet_char_in: "n < 64 \<Longrightarrow> sextet_char n \<in> set base64_alphabet"
  by (simp add: sextet_char_def base64_alphabet_length)

lemma alphabet_not_special:
  "c \<in> set base64_alphabet \<Longrightarrow> c \<noteq> CHR ''='' \<and> \<not> ascii_whitespace c"
  by (auto simp add: base64_alphabet_def ascii_whitespace_def)

lemma sextet_char_plain: "n < 64 \<Longrightarrow> sextet_char n \<noteq> CHR ''='' \<and> \<not> ascii_whitespace (sextet_char n)"
  using alphabet_not_special sextet_char_in by blast

lemma sextet_bounds:
  fixes a b c :: nat
  shows "a < 256 \<Longrightarrow> a div 4 < 64"
    and "b < 256 \<Longrightarrow> a mod 4 * 16 + b div 16 < 64"
    and "c < 256 \<Longrightarrow> b mod 16 * 4 + c div 64 < 64"
    and "c mod 64 < 64" and "a mod 4 * 16 < 64" and "b mod 16 * 4 < 64"
proof -
  have "a mod 4 < 4" "b mod 16 < 16" by simp_all
  then have "a mod 4 \<le> 3" "b mod 16 \<le> 15" by linarith+
  then show "a mod 4 * 16 < 64" "b mod 16 * 4 < 64" by linarith+
  moreover have  "b < 256 \<Longrightarrow> b div 16 < 16" "c < 256 \<Longrightarrow> c div 64 < 4" by (simp_all add: less_mult_imp_div_less)
  ultimately show  "b < 256 \<Longrightarrow> a mod 4 * 16 + b div 16 < 64" "c < 256 \<Longrightarrow> b mod 16 * 4 + c div 64 < 64"
    using \<open>a mod 4 \<le> 3\<close> \<open>b mod 16 \<le> 15\<close> by linarith+
  show "a < 256 \<Longrightarrow> a div 4 < 64" by (simp add: less_mult_imp_div_less)
  show "c mod 64 < 64" by simp
qed

lemma sextets_join:
  fixes a b c :: nat
  assumes "a < 256" "b < 256" "c < 256"
  shows "a div 4 * 4 + (a mod 4 * 16 + b div 16) div 16 = a"
    "(a mod 4 * 16 + b div 16) mod 16 * 16 + (b mod 16 * 4 + c div 64) div 4 = b"
    "(b mod 16 * 4 + c div 64) mod 4 * 64 + c mod 64 = c"
    "a div 4 * 4 + (a mod 4 * 16) div 16 = a"
    "(a mod 4 * 16 + b div 16) mod 16 * 16 + (b mod 16 * 4) div 4 = b"
proof -
  have b16: "b div 16 < 16" and c64: "c div 64 < 4"
    using assms by (simp_all add: less_mult_imp_div_less)
  show "a div 4 * 4 + (a mod 4 * 16 + b div 16) div 16 = a"
    using b16 by simp
  show "a div 4 * 4 + (a mod 4 * 16) div 16 = a"
    by simp
  have m1: "(a mod 4 * 16 + b div 16) mod 16 = b div 16"
    using b16 by simp
  show "(a mod 4 * 16 + b div 16) mod 16 * 16 + (b mod 16 * 4 + c div 64) div 4 = b"
    unfolding m1 using c64 by simp
  show "(a mod 4 * 16 + b div 16) mod 16 * 16 + (b mod 16 * 4) div 4 = b"
    unfolding m1 by simp
  have m2: "(b mod 16 * 4 + c div 64) mod 4 = c div 64"
    using c64 by simp
  show "(b mod 16 * 4 + c div 64) mod 4 * 64 + c mod 64 = c"
    unfolding m2 by simp
qed

lemma padding_not_whitespace: "\<not> ascii_whitespace CHR ''=''"
  by (simp add: ascii_whitespace_def)

lemma btoa_octets_no_whitespace:
  "\<forall>x\<in>set xs. x < 256 \<Longrightarrow> filter (\<lambda>c. \<not> ascii_whitespace c) (btoa_octets xs) = btoa_octets xs"
  by (induction xs rule: btoa_octets.induct)
     (simp_all add: sextet_char_plain sextet_bounds padding_not_whitespace)

lemma btoa_octets_length: "length (btoa_octets xs) mod 4 = 0"
  by (induction xs rule: btoa_octets.induct) simp_all

lemma btoa_octets_four: "xs \<noteq> [] \<Longrightarrow> 4 \<le> length (btoa_octets xs)"
  by (induction xs rule: btoa_octets.induct) simp_all

lemma rev_two: "2 \<le> length e \<Longrightarrow> \<exists>c1 c2 r. rev e = c1 # c2 # r"
  by (cases "rev e"; cases "tl (rev e)") (auto simp: Suc_le_eq dest: arg_cong[where f=length])

lemma btoa_octets_long: "xs \<noteq> [] \<Longrightarrow> \<exists>c1 c2 r. rev (btoa_octets xs) = c1 # c2 # r"
  using btoa_octets_four[of xs] rev_two[of "btoa_octets xs"] by simp

lemma remove_padding_append:
  assumes "rev e = c1 # c2 # r"
  shows "remove_padding (p @ e) = p @ remove_padding e"
  using assms by simp

lemma atob_btoa_octets:
  assumes "\<forall>x\<in>set xs. x < 256"
  shows "\<exists>ss. those (map char_sextet (remove_padding (btoa_octets xs))) = Some ss
              \<and> length ss mod 4 \<noteq> 1 \<and> atob_sextets ss = xs"
  using assms
proof (induction xs rule: btoa_octets.induct)
  case (1 a b c rest)
  then have bounds: "a < 256" "b < 256" "c < 256" and rest: "\<forall>x\<in>set rest. x < 256"
    by simp_all
  from 1 rest obtain ss where ss: "those (map char_sextet (remove_padding (btoa_octets rest))) = Some ss"
    "length ss mod 4 \<noteq> 1" "atob_sextets ss = rest"
    by blast
  let ?p = "[sextet_char (a div 4), sextet_char ((a mod 4) * 16 + b div 16),
     sextet_char ((b mod 16) * 4 + c div 64), sextet_char (c mod 64)]"
  have split: "btoa_octets (a # b # c # rest) = ?p @ btoa_octets rest"
    by simp
  have rp: "remove_padding (?p @ btoa_octets rest) = ?p @ remove_padding (btoa_octets rest)"
  proof (cases "rest = []")
    case True
    then show ?thesis
      using sextet_char_plain[OF sextet_bounds(4)] by simp
  next
    case False
    then show ?thesis
      using btoa_octets_long remove_padding_append by blast
  qed
  let ?ss = "a div 4 # ((a mod 4) * 16 + b div 16) # ((b mod 16) * 4 + c div 64) # (c mod 64) # ss"
  have "those (map char_sextet (remove_padding (btoa_octets (a # b # c # rest)))) = Some ?ss"
    unfolding split rp using ss(1)
    by (simp add: char_sextet_sextet_char sextet_bounds bounds)
  moreover have "length ?ss mod 4 \<noteq> 1"
    using ss(2) by simp
  moreover have "atob_sextets ?ss = a # b # c # rest"
    by (simp only: atob_sextets.simps sextets_join[OF bounds] ss(3))
  ultimately show ?case by blast
next
  case (2 a b)
  then have bounds: "a < 256" "b < 256" "(0::nat) < 256" by simp_all
  have "remove_padding (btoa_octets [a, b]) =
      [sextet_char (a div 4), sextet_char (a mod 4 * 16 + b div 16), sextet_char (b mod 16 * 4)]"
    by (simp add: sextet_char_plain sextet_bounds)
  moreover have "those (map char_sextet
      [sextet_char (a div 4), sextet_char (a mod 4 * 16 + b div 16), sextet_char (b mod 16 * 4)]) =
      Some [a div 4, a mod 4 * 16 + b div 16, b mod 16 * 4]"
    by (simp add: char_sextet_sextet_char sextet_bounds bounds)
  moreover have "atob_sextets [a div 4, a mod 4 * 16 + b div 16, b mod 16 * 4] = [a, b]"
    by (simp only: atob_sextets.simps sextets_join[OF bounds])
  ultimately show ?case by simp
next
  case (3 a)
  then have bounds: "a < 256" "(0::nat) < 256" "(0::nat) < 256" by simp_all
  have "remove_padding (btoa_octets [a]) = [sextet_char (a div 4), sextet_char (a mod 4 * 16)]"
    by (simp add: sextet_char_plain sextet_bounds)
  moreover have "those (map char_sextet [sextet_char (a div 4), sextet_char (a mod 4 * 16)]) =
      Some [a div 4, a mod 4 * 16]"
    by (simp add: char_sextet_sextet_char sextet_bounds bounds)
  moreover have "atob_sextets [a div 4, a mod 4 * 16] = [a]"
    by (simp only: atob_sextets.simps sextets_join[OF bounds])
  ultimately show ?case by simp
next
  case 4
  show ?case by simp
qed

lemma length_those: "those xs = Some ys \<Longrightarrow> length ys = length xs"
  by (induction xs arbitrary: ys) (auto split: option.splits)

lemma atob_btoa: "atob (btoa s) = Inr s"
proof -
  let ?xs = "map of_char s :: nat list"
  have b: "\<forall>x\<in>set ?xs. x < 256" by auto
  obtain ss where ss: "those (map char_sextet (remove_padding (btoa_octets ?xs))) = Some ss"
    "length ss mod 4 \<noteq> 1" "atob_sextets ss = ?xs"
    using atob_btoa_octets[OF b] by blast
  have len: "length (remove_padding (btoa_octets ?xs)) = length ss"
    using length_those[OF ss(1)] by simp
  have "map char_of ?xs = s"
    by (simp add: map_idI)
  then show ?thesis
    unfolding atob_def btoa_def btoa_octets_no_whitespace[OF b] Let_def
    using ss len by (simp add: btoa_octets_length del: remove_padding.simps)
qed

lemma base64_roundtrip: "decodeBase64 (encodeBase64 bytes) = Inr bytes"
proof -
  have small: "unat b < 256" for b :: "8 word"
    using unsigned_less[of b, where ?'a = nat] by simp
  have "map (\<lambda>c. word_of_nat (of_char c) :: 8 word) (map (\<lambda>b. char_of (unat b)) bytes) = bytes"
    by (simp add: map_idI small)
  then show ?thesis
    by (simp add: decodeBase64_def encodeBase64_def atob_btoa)
qed

text \<open>
  Claim C6. For every byte sequence \<open>bytes\<close>, decoding the text that \<open>encodeBase64\<close>
  produces gives back exactly \<open>bytes\<close>: \<open>atob\<close> does not fail on it, and no byte is
  changed, lost or added.
\<close>

theorem decodeBase64_encodeBase64: "decodeBase64 (encodeBase64 bytes) = Inr bytes"
  by (rule base64_roundtrip)

theorem decodeBase64_encodeBase64_witness:
  "decodeBase64 (encodeBase64 [0, 255, 128, 7, 64]) = Inr [0, 255, 128, 7, 64]"
  by (rule decodeBase64_encodeBase64)

section \<open>What \<open>decodeAudioData\<close> returns\<close>

lemma length_Int16_elements: "length (Int16_elements bytes) = length bytes div 2"
  by (induction bytes rule: Int16_elements.induct) simp_all

lemma length_store: "length (store xs i v) = length xs"
  by (simp add: store_def)

lemma nth_store: "j < length xs \<Longrightarrow> store xs i v ! j = (if j = i then v else xs ! j)"
  by (simp add: store_def)

lemma fold_store:
  "fold (\<lambda>i cd. store cd i (f i)) [0..<k] cd =
     map (\<lambda>i. if i < k then f i else cd ! i) [0..<length cd]"
proof (induction k)
  case 0
  show ?case by (simp add: map_nth)
next
  case (Suc k)
  have "fold (\<lambda>i cd. store cd i (f i)) [0..<Suc k] cd =
      store (map (\<lambda>i. if i < k then f i else cd ! i) [0..<length cd]) k (f k)"
    by (simp add: Suc)
  also have "\<dots> = map (\<lambda>i. if i < Suc k then f i else cd ! i) [0..<length cd]"
    by (rule nth_equalityI) (simp_all add: length_store nth_store less_Suc_eq)
  finally show ?case .
qed

lemma fill_channel_eq:
  assumes "length cd \<le> nat \<lceil>frameCount\<rceil>"
    and "\<And>i. i < length cd \<Longrightarrow> i * numChannels + channel < length dataInt16"
  shows "fill_channel dataInt16 numChannels frameCount channel cd =
     map (\<lambda>i. Num (real_of_int (sint (dataInt16 ! (i * numChannels + channel))) / 32768))
       [0..<length cd]"
  unfolding fill_channel_def fold_store
  using assms by (simp add: element_def int16_sample_def)

lemma fold_channels:
  "fold (\<lambda>channel b. b\<lparr>channelData := list_update (channelData b) channel
            (g channel (channelData b ! channel))\<rparr>) [0..<k] b0 =
   b0\<lparr>channelData :=
     map (\<lambda>channel. if channel < k then g channel (channelData b0 ! channel)
                     else channelData b0 ! channel) [0..<length (channelData b0)]\<rparr>"
proof (induction k)
  case 0
  show ?case by (simp add: map_nth)
next
  case (Suc k)
  have "list_update (map (\<lambda>channel. if channel < k then g channel (channelData b0 ! channel)
                     else channelData b0 ! channel) [0..<length (channelData b0)]) k
          (g k (map (\<lambda>channel. if channel < k then g channel (channelData b0 ! channel)
                     else channelData b0 ! channel) [0..<length (channelData b0)] ! k)) =
        map (\<lambda>channel. if channel < Suc k then g channel (channelData b0 ! channel)
                     else channelData b0 ! channel) [0..<length (channelData b0)]"
    by (rule nth_equalityI) (auto simp add: nth_list_update less_Suc_eq)
  then show ?case
    by (simp add: Suc)
qed

lemma frame_index:
  fixes i n m numChannels channel :: nat
  assumes "i < n" "n \<le> m div numChannels" "channel < numChannels"
  shows "i * numChannels + channel < m"
proof -
  have "i * numChannels + channel < Suc i * numChannels"
    using assms(3) by simp
  also have "\<dots> \<le> (m div numChannels) * numChannels"
    using assms(1,2) by (simp add: Suc_leI mult_le_mono1 del: mult_Suc)
  also have "\<dots> \<le> m"
    by simp
  finally show ?thesis .
qed

lemma frameCount_floor:
  "0 < numChannels \<Longrightarrow> nat \<lfloor>real m / real numChannels\<rfloor> = m div numChannels"
  by (simp add: floor_divide_of_nat_eq)

lemma decodeAudioData_eq:
  assumes buf: "buffer array = bytes"
  shows "decodeAudioData array ctx rate numChannels =
     (if length bytes mod 2 \<noteq> 0 then Inl RangeError
      else
        let n = (length bytes div 2 div numChannels) mod 2 ^ 32
        in if numChannels = 0 \<or> maxChannelCount ctx < numChannels \<or> n = 0
              \<or> rate < minSampleRate ctx \<or> maxSampleRate ctx < rate
           then Inl NotSupportedError
           else Inr \<lparr> sampleRate = rate, frameLength = n,
                      channelData = decoded_channels (Int16_elements bytes) numChannels n \<rparr>)"
proof (cases "length bytes mod 2 \<noteq> 0")
  case True
  then show ?thesis by (simp add: decodeAudioData_def buf new_Int16Array_def)
next
  case even: False
  let ?d = "Int16_elements bytes"
  let ?m = "length bytes div 2"
  let ?fc = "real (length ?d) / real numChannels"
  let ?n = "(?m div numChannels) mod 2 ^ 32"
  show ?thesis
  proof (cases "numChannels = 0")
    case True
    then show ?thesis
      using even by (simp add: decodeAudioData_def buf new_Int16Array_def createBuffer_def)
  next
    case False
    then have pos: "0 < numChannels" by simp
    have n: "nat \<lfloor>?fc\<rfloor> mod 2 ^ 32 = ?n"
      by (simp add: frameCount_floor[OF pos] length_Int16_elements)
    show ?thesis
    proof (cases "maxChannelCount ctx < numChannels \<or> ?n = 0
              \<or> rate < minSampleRate ctx \<or> maxSampleRate ctx < rate")
      case True
      then show ?thesis
        using even n by (auto simp add: decodeAudioData_def buf new_Int16Array_def createBuffer_def Let_def)
    next
      case ok: False
    define n where "n = ?n"
    let ?b = "\<lparr> sampleRate = rate, frameLength = n,
                  channelData = replicate numChannels (replicate n (Num 0)) \<rparr>"
    have cb: "createBuffer ctx numChannels ?fc rate = Inr ?b"
      using ok pos n by (simp add: createBuffer_def Let_def n_def)
    have le1: "n \<le> ?m div numChannels"
      by (simp add: n_def)
    have "real (?m div numChannels) \<le> real ?m / real numChannels"
      using pos by (metis frameCount_floor of_nat_floor divide_nonneg_nonneg of_nat_0_le_iff)
    then have "real n \<le> ?fc"
      using le1 by (simp add: length_Int16_elements)
    then have le2: "n \<le> nat \<lceil>?fc\<rceil>"
      by linarith
    have fill: "fill_channel ?d numChannels ?fc channel (replicate n (Num 0)) =
        map (\<lambda>i. Num (real_of_int (sint (?d ! (i * numChannels + channel))) / 32768)) [0..<n]"
      if "channel < numChannels" for channel
      using fill_channel_eq[of "replicate n (Num 0)" ?fc numChannels channel ?d]
        le2 frame_index[OF _ le1 that] by (simp add: length_Int16_elements)
    have "map (\<lambda>channel. if channel < numChannels
              then fill_channel ?d numChannels ?fc channel (channelData ?b ! channel)
              else channelData ?b ! channel) [0..<length (channelData ?b)] =
          decoded_channels ?d numChannels n"
      unfolding decoded_channels_def
      by (rule nth_equalityI) (simp_all add: fill)
    then have "fold (\<lambda>channel b. b\<lparr>channelData := list_update (channelData b) channel
            (fill_channel ?d numChannels ?fc channel (channelData b ! channel))\<rparr>)
            [0..<numChannels] ?b =
          \<lparr> sampleRate = rate, frameLength = n,
            channelData = decoded_channels ?d numChannels n \<rparr>"
      unfolding fold_channels by simp
    then show ?thesis
      using even ok pos cb by (simp add: decodeAudioData_def buf new_Int16Array_def Let_def n_def)
    qed
  qed
qed

lemma decodeAudioData_owning:
  "decodeAudioData (owning bytes) ctx rate numChannels =
     (if length bytes mod 2 \<noteq> 0 then Inl RangeError
      else
        let n = (length bytes div 2 div numChannels) mod 2 ^ 32
        in if numChannels = 0 \<or> maxChannelCount ctx < numChannels \<or> n = 0
              \<or> rate < minSampleRate ctx \<or> maxSampleRate ctx < rate
           then Inl NotSupportedError
           else Inr \<lparr> sampleRate = rate, frameLength = n,
                      channelData = decoded_channels (Int16_elements bytes) numChannels n \<rparr>)"
  by (rule decodeAudioData_eq) (simp add: owning_def)

section \<open>The example inputs, evaluated\<close>

lemma example_session_eq:
  "example_session =
     \<lparr> active = True, inputAudioContext = Some example_context,
       outputAudioContext = Some example_context, nextStartTime = 0, sources = [],
       cleanup = True, onVolumeChange = True, onDisconnect = True, onError = True,
       created = 0 \<rparr>"
  by (simp add: example_session_def start_def new_InterviewSession_def)

lemma decodeBase64_example: "decodeBase64 ''AAAAAAAA'' = Inr [0, 0, 0, 0, 0, 0]"
  by (simp add: decodeBase64_def atob_def ascii_whitespace_def char_sextet_def
      base64_alphabet_def upt_rec)

lemma decodeAudioData_example:
  "decodeAudioData (owning [0, 0, 0, 0, 0, 0]) example_context 24000 1 = Inr silence"
  by (simp add: decodeAudioData_owning example_context_def decoded_channels_def silence_def
      upt_rec word_cat_eq)

lemma duration_silence: "duration silence = 1 / 8000"
  by (simp add: duration_def silence_def)

lemma message_audio_example [simp]:
  "message_audio (audio_message a) = Some a" "\<not> message_interrupted (audio_message a)"
  "message_audio (interrupted_message a) = Some a" "message_interrupted (interrupted_message a)"
  by (simp_all add: message_audio_def message_interrupted_def audio_message_def interrupted_message_def)

lemma handleServerMessage_example:
  assumes "outputAudioContext s = Some example_context"
  shows "handleServerMessage t (audio_message ''AAAAAAAA'') s =
     (s\<lparr>nextStartTime := max (nextStartTime s) t\<rparr>, [], Some (Inr silence))"
  using assms
  by (simp add: handleServerMessage_def decodeBase64_example
      decodeAudioData_example[unfolded One_nat_def] Let_def)

lemma afterDecode_example:
  assumes "0 \<le> nextStartTime s"
  shows "afterDecode (Inr silence) s =
     (s\<lparr>nextStartTime := nextStartTime s + 1 / 8000,
        sources := sources s @ [created s], created := Suc (created s)\<rparr>,
      [SourceStart (created s) (nextStartTime s) silence])"
  using assms by (simp add: afterDecode_def duration_silence)

section \<open>The codec\<close>

lemma clamp_spec_range: "- 1 \<le> clamp_spec x \<and> clamp_spec x \<le> 1"
  by (simp add: clamp_spec_def)

lemma clamp_spec_idem: "clamp_spec (clamp_spec x) = clamp_spec x"
  by (simp add: clamp_spec_def)

lemma source_clamp: "Math_max (Num (- 1)) (Math_min (Num 1) (Num x)) = Num (clamp_spec x)"
  by (simp add: clamp_spec_def min_def max_def)

lemma quantize_spec_range: "- 32768 \<le> quantize_spec x \<and> quantize_spec x \<le> 32767"
proof -
  let ?c = "clamp_spec x"
  have r: "- 1 \<le> ?c" "?c \<le> 1" using clamp_spec_range by simp_all
  show ?thesis
  proof (cases "?c < 0")
    case True
    then have q: "quantize_spec x = \<lceil>?c * 32768\<rceil>"
      by (simp add: quantize_spec_def js_trunc_def Let_def mult_less_0_iff)
    have "- 32768 \<le> ?c * 32768" "?c * 32768 \<le> 0" using r True by simp_all
    then have "- 32768 \<le> \<lceil>?c * 32768\<rceil>" "\<lceil>?c * 32768\<rceil> \<le> 0"
      by (simp_all add: le_ceiling_iff ceiling_le_iff)
    then show ?thesis by (simp add: q)
  next
    case False
    then have q: "quantize_spec x = \<lfloor>?c * 32767\<rfloor>"
      by (simp add: quantize_spec_def js_trunc_def Let_def mult_less_0_iff)
    have "0 \<le> ?c * 32767" "?c * 32767 \<le> 32767" using r False by simp_all
    then have "0 \<le> \<lfloor>?c * 32767\<rfloor>" "\<lfloor>?c * 32767\<rfloor> \<le> 32767"
      by (simp_all add: le_floor_iff floor_le_iff)
    then show ?thesis by (simp add: q)
  qed
qed

lemma pcm_sample_Num: "pcm_sample (Num x) = word_of_int (quantize_spec x)"
  by (simp add: pcm_sample_def quantize_spec_def clamp_spec_def Let_def min_def max_def)

lemma sint_pcm_sample: "sint (pcm_sample (Num x)) = quantize_spec x"
  using quantize_spec_range[of x]
  by (simp add: pcm_sample_Num sint_sbintrunc' signed_take_bit_int_eq_self_iff)

lemma pcm_sample_clamp: "pcm_sample (Num (clamp_spec x)) = pcm_sample (Num x)"
  by (simp add: pcm_sample_Num quantize_spec_def clamp_spec_idem)

lemma pcm_sample_special:
  "pcm_sample PosInf = pcm_sample (Num 1)" "pcm_sample NegInf = pcm_sample (Num (- 1))"
  "pcm_sample NaN = 0"
  by (simp_all add: pcm_sample_def)

lemma Int16_bytes_of_int: "Int16_bytes (word_of_int k) = int16_le_spec k"
proof -
  have "(ucast (word_of_int k :: 16 word) :: 8 word) = word_of_int k"
    by (rule bit_eqI) (auto simp add: bit_simps)
  moreover have "(ucast (drop_bit 8 (word_of_int k :: 16 word)) :: 8 word) = word_of_int (k div 256)"
  proof -
    have "k div 256 = drop_bit 8 k" by (simp add: drop_bit_eq_div)
    then show ?thesis
      by (simp only:) (rule bit_eqI, auto simp add: bit_simps)
  qed
  ultimately show ?thesis
    by (simp add: Int16_bytes_def int16_le_spec_def)
qed

lemma Int16_elements_bytes: "Int16_elements (new_Uint8Array ws) = ws"
proof (induction ws)
  case Nil
  show ?case by (simp add: new_Uint8Array_def)
next
  case (Cons w ws)
  have "word_cat (ucast (drop_bit 8 w) :: 8 word) (ucast w :: 8 word) = w"
    by (rule bit_eqI) (auto simp add: bit_simps)
  then show ?case
    using Cons by (simp add: new_Uint8Array_def Int16_bytes_def)
qed

lemma length_new_Uint8Array: "length (new_Uint8Array ws) = 2 * length ws"
  by (induction ws) (simp_all add: new_Uint8Array_def Int16_bytes_def)

text \<open>
  Claim C7. For every frame of finite samples, \<open>createPcmBlob\<close> is the encoder of the
  specification: each sample is clamped to \<open>[-1, 1]\<close>, scaled by 32768 when negative
  and by 32767 otherwise, and truncated; the result lies between -32768 and 32767, so
  the 16-bit value stored is that integer itself and never wraps around; the bytes are
  the low byte and then the high byte of each value, sent through \<open>encodeBase64\<close>.
  Hence a frame and its clamped frame have the same encoding. An infinite sample is
  encoded as 1 or -1 is, and NaN as 0.
\<close>

theorem createPcmBlob_clamps:
  "sint (pcm_sample (Num x)) = quantize_spec x
   \<and> - 32768 \<le> quantize_spec x \<and> quantize_spec x \<le> 32767
   \<and> createPcmBlob (map Num frame) =
       \<lparr> data = Some (encodeBase64 (concat (map (\<lambda>x. int16_le_spec (quantize_spec x)) frame))),
         mimeType = Some ''audio/pcm;rate=16000'' \<rparr>
   \<and> createPcmBlob (map Num frame) = createPcmBlob (map (\<lambda>x. Num (clamp_spec x)) frame)
   \<and> pcm_sample PosInf = pcm_sample (Num 1)
   \<and> pcm_sample NegInf = pcm_sample (Num (- 1))
   \<and> pcm_sample NaN = 0"
proof -
  have bytes: "new_Uint8Array (map pcm_sample (map Num frame)) =
      concat (map (\<lambda>x. int16_le_spec (quantize_spec x)) frame)"
    by (simp add: new_Uint8Array_def pcm_sample_Num Int16_bytes_of_int comp_def)
  have clamped: "map pcm_sample (map (\<lambda>x. Num (clamp_spec x)) frame) =
      map pcm_sample (map Num frame)"
    by (simp add: pcm_sample_clamp comp_def)
  have blob: "createPcmBlob (map Num frame) =
       \<lparr> data = Some (encodeBase64 (concat (map (\<lambda>x. int16_le_spec (quantize_spec x)) frame))),
         mimeType = Some ''audio/pcm;rate=16000'' \<rparr>"
    unfolding createPcmBlob_def by (simp only: bytes)
  have same: "createPcmBlob (map Num frame) = createPcmBlob (map (\<lambda>x. Num (clamp_spec x)) frame)"
    unfolding createPcmBlob_def by (simp only: clamped)
  show ?thesis
    using quantize_spec_range[of x] blob same
    by (simp only: sint_pcm_sample pcm_sample_special simp_thms)
qed

theorem createPcmBlob_clamps_witness:
  "createPcmBlob [Num (3 / 2), Num (- 2)] = createPcmBlob [Num 1, Num (- 1)]
   \<and> sint (pcm_sample (Num (3 / 2))) = 32767 \<and> sint (pcm_sample (Num (- 2))) = - 32768"
proof -
  have c: "clamp_spec (3 / 2) = 1" "clamp_spec (- 2) = - 1"
    by (simp_all add: clamp_spec_def)
  have q: "quantize_spec (3 / 2) = 32767" "quantize_spec (- 2) = - 32768"
    by (simp_all add: quantize_spec_def clamp_spec_def js_trunc_def)
  have same: "createPcmBlob (map Num [3 / 2, - 2]) =
      createPcmBlob (map (\<lambda>x. Num (clamp_spec x)) [3 / 2, - 2])"
    using createPcmBlob_clamps[of 0 "[3 / 2, - 2]"] by blast
  have high: "sint (pcm_sample (Num (3 / 2))) = quantize_spec (3 / 2)"
    using createPcmBlob_clamps[of "3 / 2" "[]"] by blast
  have low: "sint (pcm_sample (Num (- 2))) = quantize_spec (- 2)"
    using createPcmBlob_clamps[of "- 2" "[]"] by blast
  show ?thesis
    using same high low by (simp add: c q)
qed

lemma Int16_elements_nth:
  "j < length bytes div 2 \<Longrightarrow>
     Int16_elements bytes ! j = word_cat (bytes ! (2 * j + 1)) (bytes ! (2 * j))"
proof (induction bytes arbitrary: j rule: Int16_elements.induct)
  case (1 lo hi rest)
  then show ?case by (cases j) simp_all
qed simp_all

text \<open>
  Claim C5, as amended. \<open>decodeAudioData\<close> decodes the whole buffer under its argument
  (for an array that owns its buffer, as \<open>decodeBase64\<close> returns, these are the bytes of
  the array). It fails with the \<open>RangeError\<close> of the \<open>Int16Array\<close> constructor when the
  number of bytes of the buffer is odd, and with the \<open>NotSupportedError\<close> of
  \<open>createBuffer\<close> when there is no channel, no complete frame, or a channel count or
  rate that the context does not support. In every other case it returns as many frames
  as the samples hold completely; frame \<open>i\<close> of channel \<open>c\<close> is the signed 16-bit
  little-endian sample \<open>i * numChannels + c\<close> divided by 32768, and the samples of an
  incomplete last frame are dropped without an error.
\<close>

theorem decodeAudioData_result:
  "decodeAudioData array ctx rate numChannels =
     (if length (buffer array) mod 2 \<noteq> 0 then Inl RangeError
      else
        let n = (length (buffer array) div 2 div numChannels) mod 2 ^ 32
        in if numChannels = 0 \<or> maxChannelCount ctx < numChannels \<or> n = 0
              \<or> rate < minSampleRate ctx \<or> maxSampleRate ctx < rate
           then Inl NotSupportedError
           else Inr \<lparr> sampleRate = rate, frameLength = n,
                      channelData = decoded_channels (Int16_elements (buffer array)) numChannels n \<rparr>)
   \<and> (\<forall>j. j < length (buffer array) div 2 \<longrightarrow>
          Int16_elements (buffer array) ! j =
            word_cat (buffer array ! (2 * j + 1)) (buffer array ! (2 * j)))
   \<and> buffer (owning bytes) = bytes"
  using decodeAudioData_eq[OF refl, of array ctx rate numChannels] Int16_elements_nth[of _ "buffer array"]
  by (simp add: owning_def)

theorem decodeAudioData_result_witness:
  "decodeAudioData (owning [0, 128, 255, 127]) example_context 24000 1 =
     Inr \<lparr> sampleRate = 24000, frameLength = 2,
           channelData = [[Num (- 1), Num (32767 / 32768)]] \<rparr>
   \<and> decodeAudioData (owning [0, 0, 0]) example_context 24000 1 = Inl RangeError
   \<and> decodeAudioData (owning []) example_context 24000 1 = Inl NotSupportedError
   \<and> decodeAudioData \<lparr> buffer = [1, 0, 2, 0, 3, 0], byteOffset = 4, byteLength = 2 \<rparr>
         example_context 24000 1 =
     Inr \<lparr> sampleRate = 24000, frameLength = 3,
           channelData = [[Num (1 / 32768), Num (2 / 32768), Num (3 / 32768)]] \<rparr>
   \<and> Int16_elements [0, 128, 255, 127] ! 1 = word_cat (127 :: 8 word) (255 :: 8 word)"
proof -
  have "(1::nat) < length (buffer (owning [0, 128, 255, 127])) div 2"
    by (simp add: owning_def)
  with decodeAudioData_result[of "owning [0, 128, 255, 127]" example_context 24000 1]
    decodeAudioData_result[of "owning [0, 0, 0]" example_context 24000 1]
    decodeAudioData_result[of "owning []" example_context 24000 1]
    decodeAudioData_result[of "\<lparr> buffer = [1, 0, 2, 0, 3, 0], byteOffset = 4, byteLength = 2 \<rparr>"
      example_context 24000 1]
  show ?thesis
    by (simp add: owning_def example_context_def decoded_channels_def upt_rec word_cat_eq)
qed

text \<open>
  Claim C5 as stated fails: six bytes are not a multiple of \<open>2 * 2\<close>, and with two
  channels \<open>decodeAudioData\<close> returns a buffer of one frame.
\<close>

theorem decodeAudioData_incomplete_frame:
  "length [1, 0, 2, 0, 3, 0 :: 8 word] mod (2 * 2) \<noteq> 0
   \<and> decodeAudioData (owning [1, 0, 2, 0, 3, 0]) example_context 24000 2 =
       Inr \<lparr> sampleRate = 24000, frameLength = 1,
             channelData = [[Num (1 / 32768)], [Num (2 / 32768)]] \<rparr>"
  by (simp add: decodeAudioData_owning example_context_def decoded_channels_def upt_rec word_cat_eq)

lemma quantize_error:
  assumes "- 1 \<le> x" "x \<le> 1"
  shows "\<bar>x - real_of_int (quantize_spec x) / 32768\<bar> < 2 / 32768"
    and "x < 0 \<Longrightarrow> \<bar>x - real_of_int (quantize_spec x) / 32768\<bar> < 1 / 32768"
proof -
  have c: "clamp_spec x = x"
    using assms by (simp add: clamp_spec_def)
  have neg: "\<bar>x - real_of_int (quantize_spec x) / 32768\<bar> < 1 / 32768" if "x < 0"
  proof -
    define k where "k = real_of_int \<lceil>x * 32768\<rceil>"
    have q: "real_of_int (quantize_spec x) = k"
      using that by (simp add: quantize_spec_def c js_trunc_def mult_less_0_iff k_def)
    have "x * 32768 \<le> k" "k < x * 32768 + 1"
      unfolding k_def by linarith+
    then have "x - k / 32768 \<le> 0" "- (1 / 32768) < x - k / 32768"
      by (simp_all add: field_simps)
    then show ?thesis
      unfolding q by (simp add: abs_less_iff)
  qed
  show "x < 0 \<Longrightarrow> \<bar>x - real_of_int (quantize_spec x) / 32768\<bar> < 1 / 32768"
    by (rule neg)
  show "\<bar>x - real_of_int (quantize_spec x) / 32768\<bar> < 2 / 32768"
  proof (cases "x < 0")
    case True
    from neg[OF this] show ?thesis by simp
  next
    case False
    define k where "k = real_of_int \<lfloor>x * 32767\<rfloor>"
    have q: "real_of_int (quantize_spec x) = k"
      using False by (simp add: quantize_spec_def c js_trunc_def mult_less_0_iff k_def)
    have "k \<le> x * 32767" "x * 32767 - 1 < k"
      unfolding k_def by linarith+
    then have "0 \<le> x - k / 32768" "x - k / 32768 < 2 / 32768"
      using False assms by (simp_all add: field_simps)
    then show ?thesis
      unfolding q by (simp add: abs_less_iff)
  qed
qed

lemma signed_pcm_sample: "(signed (pcm_sample (Num x)) :: real) = real_of_int (quantize_spec x)"
proof -
  have "(signed (pcm_sample (Num x)) :: real) = real_of_int (sint (pcm_sample (Num x)))"
    by (rule of_int_sint[symmetric])
  then show ?thesis
    by (simp only: sint_pcm_sample)
qed

lemma quantize_examples:
  "quantize_spec (65535 / 65536) = 32766" "quantize_spec (- (1 / 2)) = - 16384" "quantize_spec 1 = 32767"
  by (simp_all add: quantize_spec_def clamp_spec_def js_trunc_def)

text \<open>
  Claim C8, as amended. Take a non-empty frame of fewer than \<open>2 ^ 32\<close> samples, all in
  \<open>[-1, 1]\<close>, and a context that supports one channel at the given rate. Then the text of
  \<open>createPcmBlob\<close> decodes to bytes that \<open>decodeAudioData\<close> turns into one channel of
  as many samples; each decoded sample is the quantized integer divided by 32768, and it
  differs from the original by less than 2 / 32768, and by less than 1 / 32768 when the
  original is negative.
\<close>

theorem decode_encode_error:
  assumes "frame \<noteq> []" and "length frame < 2 ^ 32"
    and "\<forall>x\<in>set frame. - 1 \<le> x \<and> x \<le> 1"
    and "1 \<le> maxChannelCount ctx" and "minSampleRate ctx \<le> rate" and "rate \<le> maxSampleRate ctx"
  shows "\<exists>text bytes decoded.
           data (createPcmBlob (map Num frame)) = Some text
         \<and> decodeBase64 text = Inr bytes
         \<and> decodeAudioData (owning bytes) ctx rate 1 =
             Inr \<lparr> sampleRate = rate, frameLength = length frame,
                   channelData = [map Num decoded] \<rparr>
         \<and> decoded = map (\<lambda>x. real_of_int (quantize_spec x) / 32768) frame
         \<and> (\<forall>i<length frame.
               \<bar>frame ! i - decoded ! i\<bar> < 2 / 32768
             \<and> (frame ! i < 0 \<longrightarrow> \<bar>frame ! i - decoded ! i\<bar> < 1 / 32768))"
proof -
  define bytes where "bytes = new_Uint8Array (map pcm_sample (map Num frame))"
  define decoded where "decoded = map (\<lambda>x. real_of_int (quantize_spec x) / 32768) frame"
  have len: "length bytes = 2 * length frame"
    by (simp add: bytes_def length_new_Uint8Array)
  have even: "length bytes mod 2 = 0"
    by (simp add: len)
  have n: "length bytes div 2 div 1 mod 2 ^ 32 = length frame"
    using assms(2) by (simp add: len)
  have positive: "length frame \<noteq> 0"
    using assms(1) by simp
  have "map (\<lambda>i. Num (real_of_int (sint (map pcm_sample (map Num frame) ! i)) / 32768))
      [0..<length frame] = map Num decoded"
    by (rule nth_equalityI) (simp_all add: decoded_def signed_pcm_sample)
  then have channels: "decoded_channels (Int16_elements bytes) 1 (length frame) = [map Num decoded]"
    by (simp add: bytes_def Int16_elements_bytes decoded_channels_def)
  have dec: "decodeAudioData (owning bytes) ctx rate 1 =
      Inr \<lparr> sampleRate = rate, frameLength = length frame, channelData = [map Num decoded] \<rparr>"
    unfolding decodeAudioData_owning n Let_def channels
    using even positive assms(4,5,6) by simp
  have err: "\<bar>frame ! i - decoded ! i\<bar> < 2 / 32768
      \<and> (frame ! i < 0 \<longrightarrow> \<bar>frame ! i - decoded ! i\<bar> < 1 / 32768)" if "i < length frame" for i
  proof -
    have "- 1 \<le> frame ! i" "frame ! i \<le> 1"
      using assms(3) that by simp_all
    from quantize_error[OF this] that show ?thesis by (simp add: decoded_def)
  qed
  have blob: "data (createPcmBlob (map Num frame)) = Some (encodeBase64 bytes)"
    by (simp add: createPcmBlob_def bytes_def)
  have roundtrip: "decodeBase64 (encodeBase64 bytes) = Inr bytes"
    by (rule base64_roundtrip)
  have final: "data (createPcmBlob (map Num frame)) = Some (encodeBase64 bytes)
      \<and> decodeBase64 (encodeBase64 bytes) = Inr bytes
      \<and> decodeAudioData (owning bytes) ctx rate 1 =
          Inr \<lparr> sampleRate = rate, frameLength = length frame,
                channelData = [map Num decoded] \<rparr>
      \<and> decoded = map (\<lambda>x. real_of_int (quantize_spec x) / 32768) frame
      \<and> (\<forall>i<length frame.
            \<bar>frame ! i - decoded ! i\<bar> < 2 / 32768
          \<and> (frame ! i < 0 \<longrightarrow> \<bar>frame ! i - decoded ! i\<bar> < 1 / 32768))"
    using blob roundtrip dec err decoded_def by simp
  show ?thesis
    by (rule exI[of _ "encodeBase64 bytes"], rule exI[of _ bytes], rule exI[of _ decoded])
      (rule final)
qed

theorem decode_encode_error_witness:
  "\<exists>text bytes.
     data (createPcmBlob (map Num [65535 / 65536, - (1 / 2), 1])) = Some text
   \<and> decodeBase64 text = Inr bytes
   \<and> decodeAudioData (owning bytes) example_context 24000 1 =
       Inr \<lparr> sampleRate = 24000, frameLength = 3,
             channelData = [[Num (32766 / 32768), Num (- 16384 / 32768), Num (32767 / 32768)]] \<rparr>"
proof -
  have "\<forall>x\<in>set [65535 / 65536, - (1 / 2), 1 :: real]. - 1 \<le> x \<and> x \<le> 1"
    by simp
  from decode_encode_error[of "[65535 / 65536, - (1 / 2), 1]" example_context 24000, OF _ _ this]
  obtain t bytes decoded where
      "data (createPcmBlob (map Num [65535 / 65536, - (1 / 2), 1])) = Some t"
      "decodeBase64 t = Inr bytes"
      "decodeAudioData (owning bytes) example_context 24000 1 =
         Inr \<lparr> sampleRate = 24000, frameLength = length [65535 / 65536, - (1 / 2), 1 :: real],
               channelData = [map Num decoded] \<rparr>"
      "decoded = map (\<lambda>x. real_of_int (quantize_spec x) / 32768) [65535 / 65536, - (1 / 2), 1]"
    by (auto simp add: example_context_def)
  then show ?thesis
    by (simp add: quantize_examples)
qed

lemma pcm_sample_example: "pcm_sample (Num (65535 / 65536)) = 32766"
  by (simp add: pcm_sample_Num quantize_examples)

text \<open>
  Claim C8 as stated fails: the sample 65535 / 65536 is encoded as 32766 and decoded as
  32766 / 32768, which is 3 / 65536 away from it, more than 1 / 32768.
\<close>

theorem decode_encode_error_exceeds:
  "data (createPcmBlob [Num (65535 / 65536)]) = Some ''/n8=''
   \<and> decodeBase64 ''/n8='' = Inr [254, 127]
   \<and> decodeAudioData (owning [254, 127]) example_context 24000 1 =
       Inr \<lparr> sampleRate = 24000, frameLength = 1, channelData = [[Num (32766 / 32768)]] \<rparr>
   \<and> - 1 \<le> (65535 / 65536 :: real) \<and> (65535 / 65536 :: real) \<le> 1
   \<and> \<not> \<bar>65535 / 65536 - 32766 / 32768\<bar> \<le> (1 / 32768 :: real)"
proof -
  have "data (createPcmBlob [Num (65535 / 65536)]) = Some ''/n8=''"
    by (simp add: createPcmBlob_def pcm_sample_example new_Uint8Array_def Int16_bytes_def
        encodeBase64_def btoa_def sextet_char_def base64_alphabet_def drop_bit_eq_div)
  moreover have "decodeBase64 ''/n8='' = Inr [254, 127]"
    by (simp add: decodeBase64_def atob_def ascii_whitespace_def char_sextet_def
        base64_alphabet_def upt_rec)
  moreover have "decodeAudioData (owning [254, 127]) example_context 24000 1 =
       Inr \<lparr> sampleRate = 24000, frameLength = 1, channelData = [[Num (32766 / 32768)]] \<rparr>"
    by (simp add: decodeAudioData_owning example_context_def decoded_channels_def upt_rec word_cat_eq)
  ultimately show ?thesis
    by simp
qed

section \<open>The playback scheduler\<close>


lemma scheduled_stops: "scheduled (map SourceStop xs) = []"
  by (induction xs) simp_all












text \<open>
  Claim C10. A message with the interrupted flag is handled by the interruption alone,
  whatever audio it carries: with an output context the sources are stopped, the set is
  emptied and \<open>nextStartTime\<close> is zero; the handler returns without being suspended,
  nothing is started and nothing is logged, so the audio is neither decoded nor
  scheduled.
\<close>

theorem interrupted_audio_discarded:
  assumes "message_interrupted message"
  shows "handleServerMessage t message s =
           (case outputAudioContext s of
              None \<Rightarrow> (s, [], None)
            | Some ctx \<Rightarrow>
                (s\<lparr>sources := [], nextStartTime := 0\<rparr>, map SourceStop (sources s), None))
       \<and> scheduled (fst (snd (handleServerMessage t message s))) = []
       \<and> ConsoleError \<notin> set (fst (snd (handleServerMessage t message s)))
       \<and> snd (snd (handleServerMessage t message s)) = None"
  using assms
  by (auto simp add: handleServerMessage_def message_interrupted_def scheduled_stops
      split: option.splits)

theorem interrupted_audio_discarded_witness:
  "message_audio (interrupted_message ''AAAAAAAA'') = Some ''AAAAAAAA''
   \<and> handleServerMessage 9 (interrupted_message ''AAAAAAAA'')
       (example_session\<lparr>nextStartTime := 12, sources := [3, 4], created := 5\<rparr>) =
     (example_session\<lparr>nextStartTime := 0, sources := [], created := 5\<rparr>,
      [SourceStop 3, SourceStop 4], None)
   \<and> handleServerMessage 9 (audio_message ''AAAAAAAA'')
       (example_session\<lparr>nextStartTime := 12, sources := [3, 4], created := 5\<rparr>) =
     (example_session\<lparr>nextStartTime := 12, sources := [3, 4], created := 5\<rparr>,
      [], Some (Inr silence))"
proof -
  have flag: "message_interrupted (interrupted_message ''AAAAAAAA'')"
    by simp
  from interrupted_audio_discarded[OF flag, of 9
      "example_session\<lparr>nextStartTime := 12, sources := [3, 4], created := 5\<rparr>"]
  show ?thesis
    by (simp add: example_session_eq handleServerMessage_example)
qed

section \<open>Teardown\<close>

text \<open>
  Claim C3, evaluated on the code. \<open>stop\<close> has no guard: called twice on a started
  session whose disconnect callback is set, it calls the \<open>cleanup\<close> closure twice and
  the disconnect callback twice.
\<close>

theorem stop_twice_two_disconnects:
  "snd (stop example_session) @ snd (stop (fst (stop example_session))) =
     [Cleanup, Disconnect, Cleanup, Disconnect]
   \<and> count_list (snd (stop example_session) @ snd (stop (fst (stop example_session)))) Disconnect = 2"
  by (simp add: stop_def example_session_eq)

text \<open>
  Claim C9, evaluated on the code. After \<open>stop\<close> the capture callback returns at
  once, as it tests \<open>active\<close>. \<open>handleServerMessage\<close> tests only that the output context
  is not null, and \<open>stop\<close> leaves that field as it is: a message that arrives after
  \<open>stop\<close> has its audio decoded and, when the handler is resumed, started, and the
  scheduler state advances.
\<close>

theorem message_after_stop_is_scheduled:
  "active (fst (stop example_session)) = False
   \<and> onaudioprocess [Num 1, Num 0] (fst (stop example_session)) = (fst (stop example_session), [])
   \<and> handleAll [Arrive 7 (audio_message ''AAAAAAAA''), Continue] (fst (stop example_session), []) =
       ((example_session\<lparr>active := False, nextStartTime := 7 + 1 / 8000, sources := [0],
           created := 1\<rparr>, []),
        [SourceStart 0 7 silence])"
  by (simp add: stop_def example_session_eq handleServerMessage_example afterDecode_example
      onaudioprocess_def)

section \<open>The CV analysis\<close>

text \<open>
  Claim C4, as amended. \<open>analyzeCV\<close> fails exactly when the request is rejected or the
  response text is not JSON, and then always with the error "Failed to analyze CV
  content."; it does not look into the parsed value. Whatever value the text parses to
  is returned as the profile, and a response without text gives the empty object.
\<close>

theorem analyzeCV_unchecked:
  "((\<exists>e. analyzeCV generateContent input = Inl e) \<longleftrightarrow>
      (\<exists>e. generateContent (requestContents input) = Inl e)
      \<or> (\<exists>response. generateContent (requestContents input) = Inr response
            \<and> response_text response = Some NotJson))
   \<and> (\<forall>e. analyzeCV generateContent input = Inl e \<longrightarrow> e = Error ''Failed to analyze CV content.'')
   \<and> (\<forall>response v. generateContent (requestContents input) = Inr response
          \<and> response_text response = Some (Json v) \<longrightarrow> analyzeCV generateContent input = Inr v)
   \<and> (\<forall>response. generateContent (requestContents input) = Inr response
          \<and> response_text response = None \<longrightarrow> analyzeCV generateContent input = Inr (JObject []))"
  by (auto simp add: analyzeCV_def JSON_parse_def split: sum.splits option.splits json_text.splits)

theorem analyzeCV_unchecked_witness:
  "analyzeCV (answer (Some (Json (JObject
       [(''candidateName'', JString ''Dana''), (''summary'', JString ''backend engineer''),
        (''topics'', JArray [JString ''APIs'', JString ''databases'']),
        (''technicalSkills'', JArray [JString ''Go'', JString ''SQL''])])))) (CVText ''Dana, Go, SQL'') =
     Inr (JObject
       [(''candidateName'', JString ''Dana''), (''summary'', JString ''backend engineer''),
        (''topics'', JArray [JString ''APIs'', JString ''databases'']),
        (''technicalSkills'', JArray [JString ''Go'', JString ''SQL''])])
   \<and> analyzeCV (answer (Some NotJson)) (CVText ''Dana, Go, SQL'') =
       Inl (Error ''Failed to analyze CV content.'')"
proof -
  let ?v = "JObject
       [(''candidateName'', JString ''Dana''), (''summary'', JString ''backend engineer''),
        (''topics'', JArray [JString ''APIs'', JString ''databases'']),
        (''technicalSkills'', JArray [JString ''Go'', JString ''SQL''])]"
  have a: "answer (Some (Json ?v)) (requestContents (CVText ''Dana, Go, SQL'')) =
      Inr \<lparr> response_text = Some (Json ?v) \<rparr>"
    by (simp add: answer_def)
  have b: "answer (Some NotJson) (requestContents (CVText ''Dana, Go, SQL'')) =
      Inr \<lparr> response_text = Some NotJson \<rparr>"
    by (simp add: answer_def)
  from analyzeCV_unchecked[of "answer (Some (Json ?v))" "CVText ''Dana, Go, SQL''"] a
  have first: "analyzeCV (answer (Some (Json ?v))) (CVText ''Dana, Go, SQL'') = Inr ?v"
    by simp
  from analyzeCV_unchecked[of "answer (Some NotJson)" "CVText ''Dana, Go, SQL''"] b
  have "analyzeCV (answer (Some NotJson)) (CVText ''Dana, Go, SQL'') =
      Inl (Error ''Failed to analyze CV content.'')"
    by (metis GenerateContentResponse.select_convs(1))
  with first show ?thesis by simp
qed

text \<open>
  Claim C4 as stated fails: an object whose \<open>summary\<close> is a number and that has no
  \<open>topics\<close> and no \<open>technicalSkills\<close> is returned as it is, and a response without
  text returns the empty object.
\<close>

theorem analyzeCV_returns_incomplete_profile:
  "\<not> profile_spec (JObject [(''candidateName'', JString ''Dana''), (''summary'', JNumber 3)])
   \<and> analyzeCV
        (answer (Some (Json (JObject [(''candidateName'', JString ''Dana''), (''summary'', JNumber 3)]))))
        (CVText ''Dana, Go, SQL'') =
       Inr (JObject [(''candidateName'', JString ''Dana''), (''summary'', JNumber 3)])
   \<and> \<not> profile_spec (JObject [])
   \<and> analyzeCV (answer None) (CVText ''Dana, Go, SQL'') = Inr (JObject [])"
  by (simp add: analyzeCV_def answer_def JSON_parse_def)

end
